theory Spec2Isabelle
  imports Complex_Main "HOL-Library.Log_Nat" "HOL-Library.Sublist"
begin

section \<open>Data model of \<^verbatim>\<open>src/app/page.tsx\<close>\<close>

text \<open>
  The string-literal union types of the source are datatypes. Constructor names follow the
  literals, with \<open>-\<close> written \<open>_\<close>.
\<close>

datatype Difficulty = easy | medium | hard

datatype Mode = practice | exam

datatype Page = auth | dashboard | quiz_setup | taking_quiz | quiz_results | leaderboard
  | bookmarks | admin_questions | admin_motivation | admin_users | playground | about

datatype SubscriptionStatus = FREE | ACTIVE | EXPIRED

datatype Role = USER | ADMIN

text \<open>
  A JavaScript \<open>number\<close> that holds an identifier, a timestamp or an index is an \<open>int\<close>;
  a string is a \<open>char list\<close> of bytes (UTF-8 for the non-ASCII letters of the mock data).
  The field \<open>id\<close> is named \<open>qid\<close>, since \<open>id\<close> is the identity function of HOL.
\<close>

record Question =
  qid :: int
  topic :: string
  subtopic :: string
  difficulty :: Difficulty
  questionText :: string
  options :: "string list"
  correctAnswerIndex :: int
  explanation :: string
  imageUrl :: "string option"

record Stats =
  totalAttempted :: nat
  totalCorrect :: nat
  currentStreak :: nat

record HistoryEntry =
  hid :: int
  date :: string
  score :: int
  total :: int
  hmode :: Mode

record User =
  uid :: int
  name :: string
  email :: string
  role :: Role
  subscriptionStatus :: SubscriptionStatus
  subscriptionEndDate :: "string option"
  stats :: Stats
  history :: "HistoryEntry list"

text \<open>The object that \<open>startQuiz\<close> stores in \<open>currentQuiz\<close> (lines 145--151).\<close>

record Quiz =
  questions :: "Question list"
  answers :: "int list"
  currentIndex :: nat
  startTime :: int
  mode :: Mode

text \<open>The argument of \<open>startQuiz\<close>: \<open>config.numQuestions\<close> and \<open>config.mode\<close>.\<close>

record Config =
  numQuestions :: int
  cmode :: Mode

text \<open>
  What \<open>JSON.parse\<close> returns. The import stores array items as they are, so the
  repository holds typed questions and raw imported values side by side.
\<close>

datatype json = JNull | JBool bool | JNumber rat | JString string
  | JArray "json list" | JObject "(string \<times> json) list"

datatype entry = Typed Question | Imported json

text \<open>Calls of \<open>toast.success\<close>, \<open>toast.error\<close> and plain \<open>toast\<close>, with the message.\<close>

datatype Toast = toast_success string | toast_error string | toast_plain string

datatype error = TypeError | SyntaxError | Error string

text \<open>
  The state of the application: the \<open>useState\<close> cells of \<open>PhysicsPlatform\<close> that the
  modelled handlers read or write (the cell \<open>questions\<close> is the field \<open>repository\<close>,
  as \<open>questions\<close> is already the field of a quiz), the two \<open>useState\<close> cells of
  the mounted \<open>TakingQuizView\<close> (\<open>selectedOption\<close>, \<open>null\<close> being \<open>None\<close>, and
  \<open>showFeedback\<close>), and the effects on the outside: the notifications shown so far, oldest
  first, and the number of calls of \<open>fireConfetti\<close>.
\<close>

record State =
  page :: Page
  user :: "User option"
  repository :: "entry list"
  currentQuiz :: "Quiz option"
  selectedOption :: "int option"
  showFeedback :: bool
  toasts :: "Toast list"
  confetti :: nat

section \<open>Mock data\<close>

definition initialQuestions :: "Question list" where
  "initialQuestions =
    [\<lparr>qid = 1, topic = ''Mechanics'', subtopic = ''Kinematics'', difficulty = easy,
      questionText = ''The first equation of motion is $$v = u + at$$. What does it represent?'',
      options = [''Final velocity after time $t$'', ''Displacement $s$'',
        ''Final velocity squared'', ''Constant acceleration''],
      correctAnswerIndex = 0,
      explanation = ''This equation relates final velocity $v$ to initial velocity $u$, acceleration $a$, and time $t$.'',
      imageUrl = None\<rparr>,
     \<lparr>qid = 2, topic = ''Mechanics'', subtopic = ''Dynamics'', difficulty = medium,
      questionText = ''Newton's second law is $F = ma$. If mass is 2 kg and acceleration is 5 m/s''
        @ [CHR 0xC2, CHR 0xB2] @ '', what is the force?'',
      options = [''10 N'', ''7 N'', ''2.5 N'', ''0 N''],
      correctAnswerIndex = 0,
      explanation = ''Force $F = 2 '' @ [CHR 0x5C] @ ''text{ kg} '' @ [CHR 0x5C]
        @ ''times 5 '' @ [CHR 0x5C] @ ''text{ m/s}^2 = 10$ Newtons.'',
      imageUrl = None\<rparr>,
     \<lparr>qid = 3, topic = ''Electromagnetism'', subtopic = ''Circuits'', difficulty = easy,
      questionText = ''Ohm's law is $V = IR$. For R = 10 '' @ [CHR 0xCE, CHR 0xA9]
        @ '' and I = 2 A, what is V?'',
      options = [''20 V'', ''5 V'', ''12 V'', ''8 V''],
      correctAnswerIndex = 0,
      explanation = ''Voltage $V = 10 '' @ [CHR 0x5C] @ ''Omega '' @ [CHR 0x5C]
        @ ''times 2 '' @ [CHR 0x5C] @ ''text{ A} = 20$ Volts.'',
      imageUrl = None\<rparr>]"

text \<open>The initial state of the component: lines 82--88, nothing shown yet.\<close>

definition initialState :: State where
  "initialState =
    \<lparr>page = auth, user = None, repository = map Typed initialQuestions, currentQuiz = None,
     selectedOption = None, showFeedback = False, toasts = [], confetti = 0\<rparr>"

section \<open>Starting a quiz\<close>

text \<open>
  \<open>Array.prototype.slice(0, stop)\<close> for an integral second argument: a negative one
  counts from the end of the array, and the result is clamped to the array.
\<close>

definition slice0 :: "'a list \<Rightarrow> int \<Rightarrow> 'a list" where
  "slice0 xs stop =
     (let len = int (length xs);
          final = (if stop < 0 then max (len + stop) 0 else min stop len)
      in take (nat final) xs)"

text \<open>
  \<open>startQuiz\<close> (lines 143--153). \<open>now\<close> is the value of \<open>Date.now()\<close>. The
  questions are sliced from the constant \<open>initialQuestions\<close>, as in the source, and not
  from the repository.
\<close>

definition startQuiz :: "Config \<Rightarrow> int \<Rightarrow> State \<Rightarrow> State" where
  "startQuiz config now st =
     (let selectedQuestions = slice0 initialQuestions (numQuestions config)
      in st\<lparr>currentQuiz := Some \<lparr>questions = selectedQuestions, answers = [], currentIndex = 0,
                                  startTime = now, mode = cmode config\<rparr>,
            page := taking_quiz\<rparr>)"

text \<open>
  The session of a state, for statements about it: the questions of the current quiz.
\<close>

definition sessionQuestions :: "State \<Rightarrow> Question list" where
  "sessionQuestions st = (case currentQuiz st of None \<Rightarrow> [] | Some q \<Rightarrow> questions q)"

section \<open>Logging in\<close>

text \<open>
  \<open>String.prototype.toLowerCase\<close>, as far as an occurrence of \<open>admin\<close> can tell: the
  letters \<open>A\<close> to \<open>Z\<close> are folded, the other bytes are left as they are.
\<close>

definition toLowerCase_char :: "char \<Rightarrow> char" where
  "toLowerCase_char c =
     (let n = (of_char c :: nat) in if 65 \<le> n \<and> n \<le> 90 then char_of (n + 32) else c)"

definition toLowerCase :: "string \<Rightarrow> string" where
  "toLowerCase s = map toLowerCase_char s"

text \<open>\<open>String.prototype.includes\<close>: the second string occurs in the first.\<close>

fun includes_str :: "string \<Rightarrow> string \<Rightarrow> bool" where
  "includes_str [] t = (t = [])"
| "includes_str (c # cs) t = (prefix t (c # cs) \<or> includes_str cs t)"

text \<open>The object \<open>newUser\<close> of \<open>handleLogin\<close> (lines 121--131).\<close>

definition newUser :: "string \<Rightarrow> int \<Rightarrow> User" where
  "newUser email' now =
     (let role' = (if includes_str (toLowerCase email') ''admin'' then ADMIN else USER)
      in \<lparr>uid = now,
          name = (if role' = ADMIN then ''Admin User'' else ''Demo Student''),
          email = email',
          role = role',
          subscriptionStatus = ACTIVE,
          subscriptionEndDate = Some ''2024-12-31'',
          stats = \<lparr>totalAttempted = 50, totalCorrect = 35, currentStreak = 5\<rparr>,
          history = []\<rparr>)"

text \<open>\<open>handleLogin\<close> (lines 120--135).\<close>

definition handleLogin :: "string \<Rightarrow> int \<Rightarrow> State \<Rightarrow> State" where
  "handleLogin email' now st =
     (let u = newUser email' now
      in st\<lparr>user := Some u, page := dashboard,
            toasts := toasts st @ [toast_success (''Welcome, '' @ name u @ ''!'')]\<rparr>)"

text \<open>
  The words of the specification: the email contains \<open>admin\<close>, each letter in either
  case.
\<close>

definition containsAdminIgnoringCase :: "string \<Rightarrow> bool" where
  "containsAdminIgnoringCase s =
     (\<exists>pre post c1 c2 c3 c4 c5. s = pre @ [c1, c2, c3, c4, c5] @ post
        \<and> c1 \<in> {CHR ''a'', CHR ''A''} \<and> c2 \<in> {CHR ''d'', CHR ''D''}
        \<and> c3 \<in> {CHR ''m'', CHR ''M''} \<and> c4 \<in> {CHR ''i'', CHR ''I''}
        \<and> c5 \<in> {CHR ''n'', CHR ''N''})"

section \<open>Importing questions\<close>

text \<open>A number in a template literal: its decimal digits.\<close>

fun decimal :: "nat \<Rightarrow> string" where
  "decimal n = (if n < 10 then [char_of (48 + n)] else decimal (n div 10) @ [char_of (48 + n mod 10)])"

text \<open>
  Reading a decimal numeral back, to say which number a message reports: digits only, and
  no leading zero except in \<open>0\<close> itself.
\<close>

definition digitValue :: "char \<Rightarrow> nat option" where
  "digitValue c =
     (let n = (of_char c :: nat) in if 48 \<le> n \<and> n \<le> 57 then Some (n - 48) else None)"

fun readDigits :: "nat \<Rightarrow> string \<Rightarrow> nat option" where
  "readDigits acc [] = Some acc"
| "readDigits acc (c # cs) =
     (case digitValue c of None \<Rightarrow> None | Some d \<Rightarrow> readDigits (10 * acc + d) cs)"

definition readDecimal :: "string \<Rightarrow> nat option" where
  "readDecimal s =
     (if s = [] \<or> (1 < length s \<and> hd s = CHR ''0'') then None else readDigits 0 s)"

text \<open>
  \<open>handleJsonImport\<close> (lines 170--182). \<open>JSON.parse\<close> belongs to the platform and
  is the parameter \<open>parse\<close>, which returns the value or the error it throws. The body
  of the \<open>try\<close> block comes first; the handler below catches whatever it throws.
\<close>

definition handleJsonImport_try :: "(string \<Rightarrow> error + json) \<Rightarrow> string \<Rightarrow> State \<Rightarrow> error + State" where
  "handleJsonImport_try parse jsonString st =
     (case parse jsonString of
        Inl e \<Rightarrow> Inl e
      | Inr newQuestions \<Rightarrow>
          (case newQuestions of
             JArray items \<Rightarrow>
               Inr (st\<lparr>repository := repository st @ map Imported items,
                       toasts := toasts st @
                         [toast_success (decimal (length items) @ '' questions imported successfully!'')]\<rparr>)
           | _ \<Rightarrow> Inl (Error ''JSON is not an array.'')))"

definition handleJsonImport :: "(string \<Rightarrow> error + json) \<Rightarrow> string \<Rightarrow> State \<Rightarrow> State" where
  "handleJsonImport parse jsonString st =
     (case handleJsonImport_try parse jsonString st of
        Inr st' \<Rightarrow> st'
      | Inl e \<Rightarrow> st\<lparr>toasts := toasts st @ [toast_error ''Invalid JSON format. Please check the file.'']\<rparr>)"

section \<open>Routing\<close>

text \<open>What \<open>renderPage\<close> returns: the component it mounts, or \<open>null\<close>.\<close>

datatype Rendered = AuthView | DashboardView | QuizSetupView | TakingQuizView Quiz
  | AdminQuestionsView | AdminUsersView | PlaygroundPlaceholder | AboutUsView | null

text \<open>
  \<open>renderPage\<close> (lines 184--199): the state after the calls of \<open>setPage\<close> made while
  rendering, and the element returned.
\<close>

definition renderPage :: "State \<Rightarrow> State \<times> Rendered" where
  "renderPage st =
     (if user st = None then (st, AuthView)
      else case page st of
          dashboard \<Rightarrow> (st, DashboardView)
        | quiz_setup \<Rightarrow> (st, QuizSetupView)
        | taking_quiz \<Rightarrow>
            (case currentQuiz st of
               None \<Rightarrow> (st\<lparr>page := quiz_setup\<rparr>, null)
             | Some quiz \<Rightarrow> (st, TakingQuizView quiz))
        | admin_questions \<Rightarrow> (st, AdminQuestionsView)
        | admin_users \<Rightarrow> (st, AdminUsersView)
        | playground \<Rightarrow> (st, PlaygroundPlaceholder)
        | about \<Rightarrow> (st, AboutUsView)
        | _ \<Rightarrow> (st\<lparr>page := dashboard\<rparr>, null))"

section \<open>Taking a quiz\<close>

text \<open>
  \<open>quiz.questions[quiz.currentIndex]\<close> (line 411): \<open>undefined\<close>, here \<open>None\<close>, when
  the index is not inside the array.
\<close>

definition currentQuestion :: "Quiz \<Rightarrow> Question option" where
  "currentQuestion quiz =
     (if currentIndex quiz < length (questions quiz)
      then Some (questions quiz ! currentIndex quiz) else None)"

text \<open>
  \<open>handleAnswer\<close> (lines 413--422), with the property \<open>quiz\<close> of the view. Reading
  \<open>correctAnswerIndex\<close> of \<open>undefined\<close> throws.
\<close>

definition handleAnswer :: "int \<Rightarrow> Quiz \<Rightarrow> State \<Rightarrow> error + State" where
  "handleAnswer index quiz st =
     (if showFeedback st then Inr st
      else case currentQuestion quiz of
          None \<Rightarrow> Inl TypeError
        | Some q \<Rightarrow>
            Inr (st\<lparr>selectedOption := Some index, showFeedback := True,
                    toasts := toasts st @
                      [if index = correctAnswerIndex q then toast_success ''Correct!''
                       else toast_error ''Incorrect!'']\<rparr>))"

text \<open>
  \<open>handleNext\<close> (lines 424--433). The comparison is on integers, as
  \<open>quiz.questions.length - 1\<close> is \<open>-1\<close> for an empty array. \<open>onComplete\<close> is
  \<open>fireConfetti\<close>.
\<close>

definition handleNext :: "Quiz \<Rightarrow> State \<Rightarrow> State" where
  "handleNext quiz st =
     (if int (currentIndex quiz) < int (length (questions quiz)) - 1
      then st\<lparr>currentQuiz := Some (quiz\<lparr>currentIndex := currentIndex quiz + 1\<rparr>),
              selectedOption := None, showFeedback := False\<rparr>
      else st\<lparr>confetti := confetti st + 1, page := dashboard\<rparr>)"

text \<open>
  The button \<open>Next\<close> (line 450): \<open>disabled\<close> while \<open>showFeedback\<close> is false, so that
  a click does not reach \<open>handleNext\<close>.
\<close>

definition clickNext :: "Quiz \<Rightarrow> State \<Rightarrow> State" where
  "clickNext quiz st = (if \<not> showFeedback st then st else handleNext quiz st)"

text \<open>
  Mounting \<open>TakingQuizView\<close> initialises its two \<open>useState\<close> cells (lines 409--410).
  A session starts when \<open>startQuiz\<close> has run and the view is mounted.
\<close>

definition mountTakingQuizView :: "State \<Rightarrow> State" where
  "mountTakingQuizView st = st\<lparr>selectedOption := None, showFeedback := False\<rparr>"

definition startSession :: "Config \<Rightarrow> int \<Rightarrow> State \<Rightarrow> State" where
  "startSession config now st = mountTakingQuizView (startQuiz config now st)"

text \<open>
  The view is on screen, with its buttons, when a user is logged in, the page is
  \<open>taking-quiz\<close>, a quiz is set and its current question is defined (rendering reads
  \<open>currentQuestion.questionText\<close>, line 436, which throws on \<open>undefined\<close>).
\<close>

definition viewShown :: "State \<Rightarrow> bool" where
  "viewShown st =
     (user st \<noteq> None \<and> page st = taking_quiz \<and>
      (case currentQuiz st of None \<Rightarrow> False | Some quiz \<Rightarrow> currentQuestion quiz \<noteq> None))"

text \<open>
  The clicks a user can make in the view: an option button (line 439, with the index of the
  option) and \<open>Next\<close>. A click has no effect when the view is not on screen.
\<close>

datatype Event = ClickOption int | ClickNext

definition step :: "Event \<Rightarrow> State \<Rightarrow> State" where
  "step ev st =
     (if \<not> viewShown st then st
      else case currentQuiz st of
          None \<Rightarrow> st
        | Some quiz \<Rightarrow>
            (case ev of
               ClickOption index \<Rightarrow>
                 (case handleAnswer index quiz st of Inr st' \<Rightarrow> st' | Inl e \<Rightarrow> st)
             | ClickNext \<Rightarrow> clickNext quiz st))"

fun run :: "Event list \<Rightarrow> State \<Rightarrow> State" where
  "run [] st = st"
| "run (ev # evs) st = run evs (step ev st)"

text \<open>The states of the session controller, read from a state of the application.\<close>

definition sessionIndex :: "State \<Rightarrow> nat" where
  "sessionIndex st = (case currentQuiz st of None \<Rightarrow> 0 | Some quiz \<Rightarrow> currentIndex quiz)"

definition awaitingAnswer :: "State \<Rightarrow> bool" where
  "awaitingAnswer st = (selectedOption st = None \<and> \<not> showFeedback st)"

definition showingFeedback :: "State \<Rightarrow> bool" where
  "showingFeedback st = (selectedOption st \<noteq> None \<and> showFeedback st)"

definition completed :: "State \<Rightarrow> bool" where
  "completed st = (page st \<noteq> taking_quiz)"

section \<open>The dashboard\<close>

text \<open>
  The arithmetic of \<open>DashboardView\<close> (line 357) is on IEEE 754 double-precision numbers.
  A finite double is a rational number. \<open>fl64\<close> rounds a rational to the nearest double,
  ties to the even significand, as \<open>/\<close> and \<open>*\<close> do with their exact result; it is meant
  for results in the normal range (\<open>2 ^ -1022 \<le> \<bar>x\<bar> < 2 ^ 1024\<close>), where a double has 53
  significant bits. \<open>binaryExponent x\<close> is the \<open>e\<close> with \<open>2 ^ e \<le> x < 2 ^ (e + 1)\<close>, for
  \<open>x > 0\<close>.
\<close>

definition roundTiesToEven :: "rat \<Rightarrow> int" where
  "roundTiesToEven q =
     (let f = \<lfloor>q\<rfloor>; r = q - of_int f
      in if r < 1 / 2 then f else if 1 / 2 < r then f + 1 else if even f then f else f + 1)"

definition binaryExponent :: "rat \<Rightarrow> int" where
  "binaryExponent x =
     (let (p, q) = quotient_of x; d = bitlen p - bitlen q
      in if 2 powi d \<le> x then d else d - 1)"

definition fl64 :: "rat \<Rightarrow> rat" where
  "fl64 x =
     (if x = 0 then 0
      else let u = 2 powi (binaryExponent \<bar>x\<bar> - 52)
           in of_int (roundTiesToEven (x / u)) * u)"

text \<open>
  \<open>Math.round\<close>: the nearest integer, a tie going up. It is exact on a finite double.
\<close>

definition Math_round :: "rat \<Rightarrow> int" where
  "Math_round x = \<lfloor>x + 1 / 2\<rfloor>"

text \<open>
  \<open>accuracy\<close> of \<open>DashboardView\<close> (line 357):
  \<open>Math.round((totalCorrect / totalAttempted) * 100)\<close>, or 0 when nothing was attempted.
  The two counts are natural numbers below \<open>2 ^ 53\<close>, which are doubles as they are.
\<close>

definition accuracy :: "User \<Rightarrow> int" where
  "accuracy u =
     (if totalAttempted (stats u) > 0
      then Math_round (fl64 (fl64 (of_nat (totalCorrect (stats u)) / of_nat (totalAttempted (stats u))) * 100))
      else 0)"

text \<open>
  The words of the specification: \<open>round(100 \<times> correctCount / attemptedCount)\<close> in exact
  arithmetic, a tie going up, or 0 when nothing was attempted.
\<close>

definition specAccuracy :: "nat \<Rightarrow> nat \<Rightarrow> int" where
  "specAccuracy attemptedCount correctCount =
     (if attemptedCount > 0 then round (100 * of_nat correctCount / of_nat attemptedCount :: rat)
      else 0)"

section \<open>Sample states\<close>

text \<open>
  A state reached through the interface: a student has logged in and opened the quiz
  set-up page. \<open>session0\<close> is the session that the button of \<open>QuizSetupView\<close> starts
  (line 403), \<open>quiz0\<close> its quiz object, and \<open>strayed\<close> a logged-in state on the quiz
  page with no quiz.
\<close>

definition loggedIn :: State where
  "loggedIn = (handleLogin ''student@example.com'' 0 initialState)\<lparr>page := quiz_setup\<rparr>"

definition quiz0 :: Quiz where
  "quiz0 = \<lparr>questions = initialQuestions, answers = [], currentIndex = 0, startTime = 0,
            mode = practice\<rparr>"

definition session0 :: State where
  "session0 = startSession \<lparr>numQuestions = 3, cmode = practice\<rparr> 0 loggedIn"

definition strayed :: State where
  "strayed = loggedIn\<lparr>page := taking_quiz\<rparr>"

text \<open>
  \<open>emptied\<close> is the state after the three questions have been deleted from the
  repository. \<open>quiz1\<close> is a quiz on its second question, whose correct option is 2 while
  that of the first is 0.
\<close>

definition emptied :: State where
  "emptied = loggedIn\<lparr>repository := []\<rparr>"

definition quiz1 :: Quiz where
  "quiz1 = \<lparr>questions = [initialQuestions ! 0, (initialQuestions ! 1)\<lparr>correctAnswerIndex := 2\<rparr>],
            answers = [], currentIndex = 1, startTime = 0, mode = practice\<rparr>"

text \<open>A user with the given numbers of attempted and correct answers.\<close>

definition withStats :: "nat \<Rightarrow> nat \<Rightarrow> User" where
  "withStats attemptedCount correctCount =
     (newUser ''student@example.com'' 0)
       \<lparr>stats := \<lparr>totalAttempted = attemptedCount, totalCorrect = correctCount, currentStreak = 0\<rparr>\<rparr>"

text \<open>A stand-in for \<open>JSON.parse\<close> on five inputs, to run the import on.\<close>

definition sampleParse :: "string \<Rightarrow> error + json" where
  "sampleParse s =
     (if s = ''[]'' then Inr (JArray [])
      else if s = ''{}'' then Inr (JObject [])
      else if s = ''[null]'' then Inr (JArray [JNull])
      else if s = ''[0,0,0,0,0,0,0,0,0,0,0,0]'' then Inr (JArray (replicate 12 (JNumber 0)))
      else Inl SyntaxError)"

text \<open>
  The invariant of a running session over the questions \<open>Q\<close>, started when \<open>c\<close> bursts of
  confetti had been fired.
\<close>

definition inSession :: "Question list \<Rightarrow> nat \<Rightarrow> State \<Rightarrow> bool" where
  "inSession Q c s =
     (user s \<noteq> None \<and> Q \<noteq> [] \<and>
      (\<exists>quiz. currentQuiz s = Some quiz \<and> questions quiz = Q \<and> currentIndex quiz < length Q) \<and>
      (awaitingAnswer s \<or> showingFeedback s) \<and>
      (page s = taking_quiz \<and> confetti s = c \<or> page s = dashboard \<and> confetti s = c + 1))"

section \<open>Facts about the sample states\<close>

declare decimal.simps [simp del]

lemma decimal_0: "decimal 0 = ''0''"
  by code_simp

lemma decimal_1: "decimal 1 = ''1''"
  by code_simp

lemma decimal_Suc_0: "decimal (Suc 0) = ''1''"
  using decimal_1 by simp

lemma decimal_12: "decimal 12 = ''12''"
  by code_simp

lemma decimal_nonempty: "decimal n \<noteq> []"
  by (simp add: decimal.simps [of n])

lemma digitValue_digit: "d < 10 \<Longrightarrow> digitValue (char_of (48 + d)) = Some d"
  by (simp add: digitValue_def Let_def)

lemma readDigits_snoc:
  "readDigits acc (s @ [c]) =
     (case readDigits acc s of None \<Rightarrow> None
      | Some v \<Rightarrow> (case digitValue c of None \<Rightarrow> None | Some d \<Rightarrow> Some (10 * v + d)))"
  by (induction s arbitrary: acc) (auto split: option.splits)

lemma readDigits_decimal: "readDigits 0 (decimal n) = Some n"
proof (induction n rule: decimal.induct)
  case (1 n)
  show ?case
  proof (cases "n < 10")
    case True
    then show ?thesis by (simp add: decimal.simps [of n] digitValue_digit)
  next
    case False
    with 1 have "readDigits 0 (decimal (n div 10)) = Some (n div 10)" by simp
    with False show ?thesis
      by (simp add: decimal.simps [of n] readDigits_snoc digitValue_digit)
  qed
qed

lemma hd_decimal_zero: "hd (decimal n) = CHR ''0'' \<Longrightarrow> n = 0"
proof (induction n rule: decimal.induct)
  case (1 n)
  show ?case
  proof (cases "n < 10")
    case True
    with "1.prems" have "char_of (48 + n) = CHR ''0''"
      by (simp add: decimal.simps [of n])
    then have "(of_char (char_of (48 + n)) :: nat) = of_char CHR ''0''"
      by (simp only:)
    with True show ?thesis by simp
  next
    case False
    with "1.prems" have "hd (decimal (n div 10)) = CHR ''0''"
      by (simp add: decimal.simps [of n] decimal_nonempty)
    with 1 False have "n div 10 = 0" by simp
    with False show ?thesis by simp
  qed
qed

lemma readDecimal_decimal: "readDecimal (decimal n) = Some n"
proof -
  have "\<not> (1 < length (decimal n) \<and> hd (decimal n) = CHR ''0'')"
  proof
    assume a: "1 < length (decimal n) \<and> hd (decimal n) = CHR ''0''"
    then have "n = 0" using hd_decimal_zero by blast
    with a show False by (simp add: decimal_0)
  qed
  then show ?thesis by (simp add: readDecimal_def decimal_nonempty readDigits_decimal)
qed

lemma length_initialQuestions: "length initialQuestions = 3"
  by (simp add: initialQuestions_def)

lemma user_loggedIn: "user loggedIn \<noteq> None"
  by (simp add: loggedIn_def handleLogin_def Let_def)

lemma confetti_loggedIn: "confetti loggedIn = 0"
  by (simp add: loggedIn_def handleLogin_def initialState_def Let_def)

lemma session0_eq:
  "session0 = loggedIn\<lparr>currentQuiz := Some quiz0, page := taking_quiz,
                        selectedOption := None, showFeedback := False\<rparr>"
  by (simp add: session0_def startSession_def startQuiz_def mountTakingQuizView_def slice0_def
      quiz0_def length_initialQuestions)

lemma currentQuestion_quiz0: "currentQuestion quiz0 = Some (initialQuestions ! 0)"
  by (simp add: currentQuestion_def quiz0_def length_initialQuestions)

lemma awaitingAnswer_session0: "awaitingAnswer session0"
  by (simp add: session0_eq awaitingAnswer_def)

lemma viewShown_session0: "viewShown session0"
  using user_loggedIn by (simp add: session0_eq viewShown_def currentQuestion_quiz0)

lemma sessionQuestions_session0: "sessionQuestions session0 = initialQuestions"
  by (simp add: session0_eq sessionQuestions_def quiz0_def)

section \<open>Starting a session\<close>

text \<open>
  Claim C1 holds of no pool but the built-in one: \<open>startQuiz\<close> is not given the question
  repository and does not read it; it slices the constant \<open>initialQuestions\<close> (line 144),
  while the repository is what adding, deleting and importing questions change. Once the
  three questions have been deleted, a quiz of 3 still presents the questions 1, 2 and 3,
  not the first 3 items of the repository, of which there are none.
\<close>

theorem startQuiz_ignores_repository:
  "repository emptied = []
   \<and> sessionQuestions (startQuiz \<lparr>numQuestions = 3, cmode = practice\<rparr> 0 emptied) = initialQuestions
   \<and> map qid (sessionQuestions (startQuiz \<lparr>numQuestions = 3, cmode = practice\<rparr> 0 emptied))
       = [1, 2, 3]
   \<and> map Typed (sessionQuestions (startQuiz \<lparr>numQuestions = 3, cmode = practice\<rparr> 0 emptied))
       \<noteq> take 3 (repository emptied)"
  by (simp add: startQuiz_def sessionQuestions_def slice0_def emptied_def initialQuestions_def)

section \<open>The course of a session\<close>

lemma step_index_mono: "sessionIndex s \<le> sessionIndex (step ev s)"
  by (auto simp: step_def sessionIndex_def handleAnswer_def clickNext_def handleNext_def
      split: option.splits Event.splits sum.splits if_splits)

lemma inSession_step: "inSession Q c s \<Longrightarrow> inSession Q c (step ev s)"
  unfolding inSession_def step_def viewShown_def handleAnswer_def clickNext_def handleNext_def
    awaitingAnswer_def showingFeedback_def currentQuestion_def
  by (cases ev) (auto split: option.splits)

lemma inSession_run: "inSession Q c s \<Longrightarrow> inSession Q c (run evs s)"
  by (induction evs arbitrary: s) (simp_all add: inSession_step)

lemma inSession_start:
  assumes "user st \<noteq> None" and "sessionQuestions (startSession config now st) \<noteq> []"
  shows "inSession (sessionQuestions (startSession config now st)) (confetti st)
           (startSession config now st)"
  using assms
  by (simp add: inSession_def startSession_def startQuiz_def mountTakingQuizView_def
      sessionQuestions_def awaitingAnswer_def Let_def)

lemma inSession_questions: "inSession Q c s \<Longrightarrow> sessionQuestions s = Q"
  by (auto simp: inSession_def sessionQuestions_def)

lemma inSession_bound: "inSession Q c s \<Longrightarrow> int (sessionIndex s) \<le> int (length Q) - 1"
  by (auto simp: inSession_def sessionIndex_def)

lemma inSession_confetti: "inSession Q c s \<Longrightarrow> confetti s = c + (if completed s then 1 else 0)"
  by (auto simp: inSession_def completed_def)

lemma completed_step: "completed s \<Longrightarrow> step ev s = s"
  by (simp add: completed_def step_def viewShown_def)

lemma inSession_completing:
  "inSession Q c s \<Longrightarrow>
     (\<not> completed s \<and> completed (step ev s)) \<longleftrightarrow>
     (\<not> completed s \<and> ev = ClickNext \<and> showingFeedback s
      \<and> int (sessionIndex s) = int (length Q) - 1)"
  unfolding inSession_def step_def viewShown_def handleAnswer_def clickNext_def handleNext_def
    awaitingAnswer_def showingFeedback_def currentQuestion_def completed_def sessionIndex_def
  by (cases ev) (auto split: option.splits)

lemma answer_then_next:
  assumes "inSession Q c s" and "\<not> completed s" and "awaitingAnswer s"
  shows "(sessionIndex s + 1 < length Q \<longrightarrow>
            \<not> completed (run [ClickOption opt, ClickNext] s)
            \<and> awaitingAnswer (run [ClickOption opt, ClickNext] s)
            \<and> sessionIndex (run [ClickOption opt, ClickNext] s) = sessionIndex s + 1)
       \<and> (sessionIndex s + 1 = length Q \<longrightarrow> completed (run [ClickOption opt, ClickNext] s))"
  using assms
  by (auto simp: inSession_def step_def viewShown_def handleAnswer_def clickNext_def
      handleNext_def awaitingAnswer_def showingFeedback_def currentQuestion_def completed_def
      sessionIndex_def split: option.splits)

lemma run_append: "run (xs @ ys) s = run ys (run xs s)"
  by (induction xs arbitrary: s) simp_all

lemma answering_completes:
  assumes "inSession Q c s" and "\<not> completed s" and "awaitingAnswer s"
    and "sessionIndex s + k = length Q"
  shows "completed (run (concat (replicate k [ClickOption opt, ClickNext])) s)"
  using assms
proof (induction k arbitrary: s)
  case 0
  have "int (sessionIndex s) \<le> int (length Q) - 1"
    using "0.prems"(1) by (rule inSession_bound)
  with "0.prems"(4) show ?case by simp
next
  case (Suc k)
  let ?next = "run [ClickOption opt, ClickNext] s"
  have inv: "inSession Q c ?next" using Suc.prems(1) by (rule inSession_run)
  note two = answer_then_next [OF Suc.prems(1-3), of opt]
  show ?case
  proof (cases "sessionIndex s + 1 = length Q")
    case True
    with two have fin: "completed ?next" by blast
    have "run (concat (replicate k [ClickOption opt, ClickNext])) ?next = ?next"
      using fin by (induction k) (simp_all add: completed_step)
    then show ?thesis using fin by (simp del: run.simps add: run_append [symmetric])
  next
    case False
    with Suc.prems(4) have lt: "sessionIndex s + 1 < length Q" by simp
    with two have a: "\<not> completed ?next" and b: "awaitingAnswer ?next"
      and c: "sessionIndex ?next = sessionIndex s + 1" by blast+
    from c Suc.prems(4) have "sessionIndex ?next + k = length Q" by simp
    from Suc.IH [OF inv a b this]
    show ?thesis by simp
  qed
qed

text \<open>
  Claim C2, as stated, fails on the code: a count of 0 starts a session with no question,
  whose index 0 exceeds \<open>length - 1 = -1\<close> while the page is still \<open>taking-quiz\<close>.
\<close>

theorem empty_session_counterexample:
  "\<not> completed (startSession \<lparr>numQuestions = 0, cmode = practice\<rparr> 0 loggedIn)
   \<and> \<not> int (sessionIndex (startSession \<lparr>numQuestions = 0, cmode = practice\<rparr> 0 loggedIn))
         \<le> int (length (sessionQuestions
               (startSession \<lparr>numQuestions = 0, cmode = practice\<rparr> 0 loggedIn))) - 1"
  by (simp add: startSession_def startQuiz_def mountTakingQuizView_def slice0_def completed_def
      sessionIndex_def sessionQuestions_def)

text \<open>
  Claim C2, amended: for every session with at least one question, started by a logged-in
  user, the current index starts at 0 (awaiting an answer, not completed); no click lowers
  it; after any sequence of clicks the questions are the same and, while the session is not
  completed, the index is at most \<open>length - 1\<close>; the completion effect has been fired once
  if the session is completed and not at all otherwise; the session becomes completed by
  exactly one kind of transition, \<open>Next\<close> while the feedback of the last question is
  showing; a completed session accepts no further click; and answering and advancing
  \<open>length\<close> times completes it.
\<close>

theorem session_index_and_completion:
  assumes "user st \<noteq> None" and "sessionQuestions (startSession config now st) \<noteq> []"
  shows "let s0 = startSession config now st; s = run evs s0;
             n = length (sessionQuestions s0)
         in sessionIndex s0 = 0 \<and> awaitingAnswer s0 \<and> \<not> completed s0
            \<and> sessionIndex s \<le> sessionIndex (step ev s)
            \<and> sessionQuestions s = sessionQuestions s0
            \<and> (\<not> completed s \<longrightarrow> int (sessionIndex s) \<le> int n - 1)
            \<and> confetti s = confetti st + (if completed s then 1 else 0)
            \<and> ((\<not> completed s \<and> completed (step ev s)) \<longleftrightarrow>
                 (\<not> completed s \<and> ev = ClickNext \<and> showingFeedback s
                  \<and> int (sessionIndex s) = int n - 1))
            \<and> (completed s \<longrightarrow> step ev s = s)
            \<and> completed (run (concat (replicate n [ClickOption opt, ClickNext])) s0)"
proof -
  let ?start = "startSession config now st"
  let ?Q = "sessionQuestions ?start"
  let ?s = "run evs ?start"
  have inv0: "inSession ?Q (confetti st) ?start" using assms by (rule inSession_start)
  have inv: "inSession ?Q (confetti st) ?s" using inv0 by (rule inSession_run)
  have start: "sessionIndex ?start = 0 \<and> awaitingAnswer ?start \<and> \<not> completed ?start"
    by (simp add: startSession_def startQuiz_def mountTakingQuizView_def sessionIndex_def
        awaitingAnswer_def completed_def Let_def)
  have live: "completed (run (concat (replicate (length ?Q) [ClickOption opt, ClickNext])) ?start)"
    using inv0 start by (intro answering_completes [where Q = ?Q and c = "confetti st"]) simp_all
  show ?thesis
    unfolding Let_def
    using start step_index_mono [of ?s ev] inSession_questions [OF inv] inSession_bound [OF inv]
      inSession_confetti [OF inv] inSession_completing [OF inv, of ev] completed_step [of ?s ev] live
    by simp
qed

theorem session_index_and_completion_witness:
  "user loggedIn \<noteq> None \<and> sessionQuestions session0 \<noteq> []
   \<and> sessionIndex session0 = 0
   \<and> completed (run (concat (replicate 3 [ClickOption 0, ClickNext])) session0)
   \<and> confetti (run (concat (replicate 3 [ClickOption 0, ClickNext])) session0) = 1
   \<and> sessionIndex (run (concat (replicate 3 [ClickOption 0, ClickNext])) session0) \<le> 2"
proof -
  have ne: "sessionQuestions (startSession \<lparr>numQuestions = 3, cmode = practice\<rparr> 0 loggedIn) \<noteq> []"
    using sessionQuestions_session0 length_initialQuestions by (auto simp: session0_def)
  note inst = session_index_and_completion [OF user_loggedIn ne,
      of "concat (replicate 3 [ClickOption 0, ClickNext])" ClickNext 0]
  have fin: "completed (run (concat (replicate 3 [ClickOption 0, ClickNext])) session0)"
    using inst sessionQuestions_session0 length_initialQuestions
    by (simp add: Let_def session0_def)
  have idx: "sessionIndex session0 = 0" using inst by (simp add: Let_def session0_def)
  have conf: "confetti (run (concat (replicate 3 [ClickOption 0, ClickNext])) session0) = 1"
    using inst fin confetti_loggedIn by (simp add: Let_def session0_def)
  have bound: "sessionIndex (run (concat (replicate 3 [ClickOption 0, ClickNext])) session0) \<le> 2"
    using inSession_bound [OF inSession_run [OF inSession_start [OF user_loggedIn ne]],
        of "concat (replicate 3 [ClickOption 0, ClickNext])"]
      sessionQuestions_session0 length_initialQuestions
    by (simp add: session0_def)
  show ?thesis using user_loggedIn ne fin idx conf bound by (simp add: session0_def)
qed

section \<open>Importing questions\<close>

text \<open>
  Claim C3: for every input string and every parser, when parsing throws, or returns a
  value that is not an array, the import shows the error notification and changes nothing
  else (the repository is as before); when it returns an array, the items are appended to
  the repository as they are and the success notification starts with the decimal numeral
  of their number, which reads back as that number; and where \<open>JSON.parse\<close> returns the empty array
  for \<open>[]\<close>, importing \<open>[]\<close> adds nothing and reports success with the number 0.
\<close>

theorem handleJsonImport_outcomes:
  "(\<forall>e. parse s = Inl e \<longrightarrow>
      handleJsonImport parse s st =
        st\<lparr>toasts := toasts st @ [toast_error ''Invalid JSON format. Please check the file.'']\<rparr>)
   \<and> (\<forall>v. parse s = Inr v \<and> (\<forall>items. v \<noteq> JArray items) \<longrightarrow>
      handleJsonImport parse s st =
        st\<lparr>toasts := toasts st @ [toast_error ''Invalid JSON format. Please check the file.'']\<rparr>)
   \<and> (\<forall>items. parse s = Inr (JArray items) \<longrightarrow>
      handleJsonImport parse s st =
        st\<lparr>repository := repository st @ map Imported items,
           toasts := toasts st @
             [toast_success (decimal (length items) @ '' questions imported successfully!'')]\<rparr>
      \<and> readDecimal (decimal (length items)) = Some (length items))
   \<and> (parse ''[]'' = Inr (JArray []) \<longrightarrow>
      handleJsonImport parse ''[]'' st =
        st\<lparr>toasts := toasts st @ [toast_success ''0 questions imported successfully!'']\<rparr>)"
proof (intro conjI allI impI)
  fix e assume "parse s = Inl e"
  then show "handleJsonImport parse s st =
      st\<lparr>toasts := toasts st @ [toast_error ''Invalid JSON format. Please check the file.'']\<rparr>"
    by (simp add: handleJsonImport_def handleJsonImport_try_def)
next
  fix v assume "parse s = Inr v \<and> (\<forall>items. v \<noteq> JArray items)"
  then show "handleJsonImport parse s st =
      st\<lparr>toasts := toasts st @ [toast_error ''Invalid JSON format. Please check the file.'']\<rparr>"
    by (cases v) (simp_all add: handleJsonImport_def handleJsonImport_try_def)
next
  fix items assume "parse s = Inr (JArray items)"
  then show "handleJsonImport parse s st =
      st\<lparr>repository := repository st @ map Imported items,
         toasts := toasts st @
           [toast_success (decimal (length items) @ '' questions imported successfully!'')]\<rparr>"
    by (simp add: handleJsonImport_def handleJsonImport_try_def)
next
  fix items
  show "readDecimal (decimal (length items)) = Some (length items)"
    by (rule readDecimal_decimal)
next
  assume "parse ''[]'' = Inr (JArray [])"
  then show "handleJsonImport parse ''[]'' st =
      st\<lparr>toasts := toasts st @ [toast_success ''0 questions imported successfully!'']\<rparr>"
    by (simp add: handleJsonImport_def handleJsonImport_try_def decimal_0)
qed

theorem handleJsonImport_outcomes_witness:
  "sampleParse ''{'' = Inl SyntaxError
   \<and> handleJsonImport sampleParse ''{'' loggedIn =
        loggedIn\<lparr>toasts := toasts loggedIn @
          [toast_error ''Invalid JSON format. Please check the file.'']\<rparr>
   \<and> sampleParse ''{}'' = Inr (JObject []) \<and> (\<forall>items. JObject [] \<noteq> JArray items)
   \<and> handleJsonImport sampleParse ''{}'' loggedIn =
        loggedIn\<lparr>toasts := toasts loggedIn @
          [toast_error ''Invalid JSON format. Please check the file.'']\<rparr>
   \<and> sampleParse ''[null]'' = Inr (JArray [JNull])
   \<and> handleJsonImport sampleParse ''[null]'' loggedIn =
        loggedIn\<lparr>repository := repository loggedIn @ [Imported JNull],
                 toasts := toasts loggedIn @ [toast_success ''1 questions imported successfully!'']\<rparr>
   \<and> sampleParse ''[0,0,0,0,0,0,0,0,0,0,0,0]'' = Inr (JArray (replicate 12 (JNumber 0)))
   \<and> handleJsonImport sampleParse ''[0,0,0,0,0,0,0,0,0,0,0,0]'' loggedIn =
        loggedIn\<lparr>repository := repository loggedIn @ replicate 12 (Imported (JNumber 0)),
                 toasts := toasts loggedIn @ [toast_success ''12 questions imported successfully!'']\<rparr>
   \<and> sampleParse ''[]'' = Inr (JArray [])
   \<and> handleJsonImport sampleParse ''[]'' loggedIn =
        loggedIn\<lparr>toasts := toasts loggedIn @ [toast_success ''0 questions imported successfully!'']\<rparr>"
proof -
  have a: "sampleParse ''{'' = Inl SyntaxError" by (simp add: sampleParse_def)
  have b: "sampleParse ''{}'' = Inr (JObject [])" by (simp add: sampleParse_def)
  have c: "sampleParse ''[null]'' = Inr (JArray [JNull])" by (simp add: sampleParse_def)
  have d: "sampleParse ''[]'' = Inr (JArray [])" by (simp add: sampleParse_def)
  have e: "sampleParse ''[0,0,0,0,0,0,0,0,0,0,0,0]'' = Inr (JArray (replicate 12 (JNumber 0)))"
    by (simp add: sampleParse_def)
  note h1 = handleJsonImport_outcomes [of sampleParse "''{''" loggedIn]
  note h2 = handleJsonImport_outcomes [of sampleParse "''{}''" loggedIn]
  note h3 = handleJsonImport_outcomes [of sampleParse "''[null]''" loggedIn]
  note h4 = handleJsonImport_outcomes [of sampleParse "''[]''" loggedIn]
  note h5 = handleJsonImport_outcomes [of sampleParse "''[0,0,0,0,0,0,0,0,0,0,0,0]''" loggedIn]
  from h1 a have r1: "handleJsonImport sampleParse ''{'' loggedIn =
        loggedIn\<lparr>toasts := toasts loggedIn @
          [toast_error ''Invalid JSON format. Please check the file.'']\<rparr>"
    by blast
  from h2 b have r2: "handleJsonImport sampleParse ''{}'' loggedIn =
        loggedIn\<lparr>toasts := toasts loggedIn @
          [toast_error ''Invalid JSON format. Please check the file.'']\<rparr>"
    by blast
  from h3 c have "handleJsonImport sampleParse ''[null]'' loggedIn =
        loggedIn\<lparr>repository := repository loggedIn @ map Imported [JNull],
                 toasts := toasts loggedIn @
                   [toast_success (decimal (length [JNull]) @ '' questions imported successfully!'')]\<rparr>"
    by blast
  then have r3: "handleJsonImport sampleParse ''[null]'' loggedIn =
        loggedIn\<lparr>repository := repository loggedIn @ [Imported JNull],
                 toasts := toasts loggedIn @ [toast_success ''1 questions imported successfully!'']\<rparr>"
    by (simp add: decimal_Suc_0)
  from h5 e have "handleJsonImport sampleParse ''[0,0,0,0,0,0,0,0,0,0,0,0]'' loggedIn =
        loggedIn\<lparr>repository := repository loggedIn @ map Imported (replicate 12 (JNumber 0)),
                 toasts := toasts loggedIn @
                   [toast_success (decimal (length (replicate 12 (JNumber 0)))
                      @ '' questions imported successfully!'')]\<rparr>"
    by blast
  then have r5: "handleJsonImport sampleParse ''[0,0,0,0,0,0,0,0,0,0,0,0]'' loggedIn =
        loggedIn\<lparr>repository := repository loggedIn @ replicate 12 (Imported (JNumber 0)),
                 toasts := toasts loggedIn @ [toast_success ''12 questions imported successfully!'']\<rparr>"
    by (simp add: decimal_12)
  from h4 d have r4: "handleJsonImport sampleParse ''[]'' loggedIn =
        loggedIn\<lparr>toasts := toasts loggedIn @ [toast_success ''0 questions imported successfully!'']\<rparr>"
    by blast
  show ?thesis using a b c d e r1 r2 r3 r4 r5 by simp
qed

section \<open>Answering and advancing\<close>

text \<open>
  Claim C5: while the feedback is showing, selecting an option, whatever its index, is a
  no-op: \<open>handleAnswer\<close> returns the state as it is, so the recorded selection, the feedback
  flag and everything else are unchanged and no notification is added. Hence clicking a
  second option after a first one never has a further effect.
\<close>

theorem handleAnswer_reselect_noop:
  "(showFeedback st \<longrightarrow> handleAnswer index quiz st = Inr st \<and> step (ClickOption index) st = st)
   \<and> step (ClickOption j) (step (ClickOption i) st) = step (ClickOption i) st"
  by (auto simp: handleAnswer_def step_def viewShown_def split: option.splits)

theorem handleAnswer_reselect_noop_witness:
  "showFeedback (step (ClickOption 1) session0)
   \<and> selectedOption (step (ClickOption 2) (step (ClickOption 1) session0)) = Some 1
   \<and> toasts (step (ClickOption 2) (step (ClickOption 1) session0))
       = toasts session0 @ [toast_error ''Incorrect!'']"
proof -
  have sel: "step (ClickOption 1) session0 =
      session0\<lparr>selectedOption := Some 1, showFeedback := True,
               toasts := toasts session0 @ [toast_error ''Incorrect!'']\<rparr>"
    using viewShown_session0
    by (simp add: step_def handleAnswer_def session0_eq currentQuestion_quiz0
        initialQuestions_def)
  have fb: "showFeedback (step (ClickOption 1) session0)" by (simp add: sel)
  from handleAnswer_reselect_noop [of "step (ClickOption 1) session0" 2 quiz0 2 1] fb
  have "step (ClickOption 2) (step (ClickOption 1) session0) = step (ClickOption 1) session0"
    by simp
  then show ?thesis using fb by (simp add: sel)
qed

text \<open>
  Claim C6: while the view awaits an answer, \<open>Next\<close> is rejected: the click changes
  nothing, and nothing is notified. It is the only guard on advancing: a click on \<open>Next\<close>
  leaves the state as it is exactly when no feedback is showing; with feedback showing it
  always moves on or completes.
\<close>

theorem clickNext_rejected_iff:
  "(awaitingAnswer st \<longrightarrow> clickNext quiz st = st \<and> step ClickNext st = st)
   \<and> (clickNext quiz st = st \<longleftrightarrow> \<not> showFeedback st)
   \<and> (viewShown st \<longrightarrow> (step ClickNext st = st \<longleftrightarrow> \<not> showFeedback st))"
  by (auto simp: clickNext_def handleNext_def awaitingAnswer_def step_def viewShown_def
      split: option.splits if_splits
      dest: arg_cong [where f = showFeedback] arg_cong [where f = confetti])

theorem clickNext_rejected_iff_witness:
  "awaitingAnswer session0 \<and> viewShown session0
   \<and> clickNext quiz0 session0 = session0 \<and> step ClickNext session0 = session0
   \<and> \<not> showFeedback session0"
  using clickNext_rejected_iff [of session0 quiz0] awaitingAnswer_session0 viewShown_session0
  by blast

text \<open>
  Claim C7: while the view awaits an answer on question \<open>i\<close>, the current index of the
  quiz, selecting an option records it and shows the feedback, and adds one notification:
  success exactly when the option equals the \<open>correctAnswerIndex\<close> of the \<open>i\<close>-th question of
  the quiz, failure otherwise. Nothing else changes: the comparison is all the scoring
  there is. A click on an option button of the view does the same.
\<close>

theorem handleAnswer_scores:
  assumes "awaitingAnswer st" and "currentIndex quiz = i" and "i < length (questions quiz)"
  shows "handleAnswer index quiz st =
           Inr (st\<lparr>selectedOption := Some index, showFeedback := True,
                   toasts := toasts st @
                     [if index = correctAnswerIndex (questions quiz ! i)
                      then toast_success ''Correct!'' else toast_error ''Incorrect!'']\<rparr>)
       \<and> (viewShown st \<and> currentQuiz st = Some quiz \<longrightarrow>
            step (ClickOption index) st =
              st\<lparr>selectedOption := Some index, showFeedback := True,
                 toasts := toasts st @
                   [if index = correctAnswerIndex (questions quiz ! i)
                    then toast_success ''Correct!'' else toast_error ''Incorrect!'']\<rparr>)"
  using assms by (simp add: handleAnswer_def awaitingAnswer_def currentQuestion_def step_def)

theorem handleAnswer_scores_witness:
  "awaitingAnswer session0 \<and> currentIndex quiz1 = 1 \<and> 1 < length (questions quiz1)
   \<and> correctAnswerIndex (questions quiz1 ! 0) = 0 \<and> correctAnswerIndex (questions quiz1 ! 1) = 2
   \<and> handleAnswer 2 quiz1 session0 =
        Inr (session0\<lparr>selectedOption := Some 2, showFeedback := True,
                      toasts := toasts session0 @ [toast_success ''Correct!'']\<rparr>)
   \<and> handleAnswer 0 quiz1 session0 =
        Inr (session0\<lparr>selectedOption := Some 0, showFeedback := True,
                      toasts := toasts session0 @ [toast_error ''Incorrect!'']\<rparr>)
   \<and> viewShown session0 \<and> currentQuiz session0 = Some quiz0 \<and> currentIndex quiz0 = 0
   \<and> step (ClickOption 0) session0 =
        session0\<lparr>selectedOption := Some 0, showFeedback := True,
                 toasts := toasts session0 @ [toast_success ''Correct!'']\<rparr>
   \<and> step (ClickOption 3) session0 =
        session0\<lparr>selectedOption := Some 3, showFeedback := True,
                 toasts := toasts session0 @ [toast_error ''Incorrect!'']\<rparr>"
proof -
  have i1: "currentIndex quiz1 = 1" and l1: "1 < length (questions quiz1)"
    and c0: "correctAnswerIndex (questions quiz1 ! 0) = 0"
    and c1: "correctAnswerIndex (questions quiz1 ! 1) = 2"
    by (simp_all add: quiz1_def initialQuestions_def)
  have i0: "currentIndex quiz0 = 0" and l0: "0 < length (questions quiz0)"
    and d0: "correctAnswerIndex (questions quiz0 ! 0) = 0"
    by (simp_all add: quiz0_def initialQuestions_def)
  have q0: "currentQuiz session0 = Some quiz0" by (simp add: session0_eq)
  note a = handleAnswer_scores [OF awaitingAnswer_session0 i1 l1, of 2]
    and b = handleAnswer_scores [OF awaitingAnswer_session0 i1 l1, of 0]
    and c = handleAnswer_scores [OF awaitingAnswer_session0 i0 l0, of 0]
    and d = handleAnswer_scores [OF awaitingAnswer_session0 i0 l0, of 3]
  show ?thesis
    using a b c d awaitingAnswer_session0 viewShown_session0 q0 i0 i1 l1 c0 c1 d0
    by simp
qed

section \<open>Routing and logging in\<close>

text \<open>
  Claim C9: when a logged-in user is on the page \<open>taking-quiz\<close> and no quiz is set,
  \<open>renderPage\<close> renders nothing and sets the page to \<open>quiz-setup\<close>; no notification is
  added and nothing else in the state changes.
\<close>

theorem renderPage_redirects:
  assumes "user st \<noteq> None" and "page st = taking_quiz" and "currentQuiz st = None"
  shows "renderPage st = (st\<lparr>page := quiz_setup\<rparr>, null)"
  using assms by (simp add: renderPage_def)

theorem renderPage_redirects_witness:
  "user strayed \<noteq> None \<and> page strayed = taking_quiz \<and> currentQuiz strayed = None
   \<and> renderPage strayed = (loggedIn, null)"
proof -
  have a: "user strayed \<noteq> None" using user_loggedIn by (simp add: strayed_def)
  have b: "page strayed = taking_quiz" by (simp add: strayed_def)
  have c: "currentQuiz strayed = None"
    by (simp add: strayed_def loggedIn_def handleLogin_def initialState_def Let_def)
  have d: "strayed\<lparr>page := quiz_setup\<rparr> = loggedIn" by (simp add: strayed_def loggedIn_def)
  from renderPage_redirects [OF a b c] d a b c show ?thesis by simp
qed

text \<open>
  Claim C10: for every email, the user that login constructs has subscription status
  \<open>ACTIVE\<close>, end date \<open>2024-12-31\<close>, 50 attempted, 35 correct, a streak of 5 and an empty
  history; two emails give users that differ in name, role and the email itself at most;
  this user is the one \<open>handleLogin\<close> stores, and its correct count is at most its attempted
  count.
\<close>

theorem newUser_fixed_fields:
  "subscriptionStatus (newUser e now) = ACTIVE
   \<and> subscriptionEndDate (newUser e now) = Some ''2024-12-31''
   \<and> totalAttempted (stats (newUser e now)) = 50
   \<and> totalCorrect (stats (newUser e now)) = 35
   \<and> currentStreak (stats (newUser e now)) = 5
   \<and> history (newUser e now) = []
   \<and> newUser e now =
       (newUser e' now)\<lparr>name := name (newUser e now), role := role (newUser e now), email := e\<rparr>
   \<and> user (handleLogin e now st) = Some (newUser e now)
   \<and> totalCorrect (stats (newUser e now)) \<le> totalAttempted (stats (newUser e now))"
  by (simp add: newUser_def handleLogin_def Let_def)

section \<open>The role of a user\<close>

lemma includes_str_iff: "includes_str s t \<longleftrightarrow> (\<exists>pre post. s = pre @ t @ post)"
proof (induction s)
  case Nil
  then show ?case by auto
next
  case (Cons c cs)
  show ?case
  proof
    assume "includes_str (c # cs) t"
    then consider "prefix t (c # cs)" | "includes_str cs t" by auto
    then show "\<exists>pre post. c # cs = pre @ t @ post"
    proof cases
      case 1
      then obtain post where "c # cs = t @ post" by (auto simp: prefix_def)
      then have "c # cs = [] @ t @ post" by simp
      then show ?thesis by blast
    next
      case 2
      with Cons.IH obtain pre post where "cs = pre @ t @ post" by auto
      then have "c # cs = (c # pre) @ t @ post" by simp
      then show ?thesis by blast
    qed
  next
    assume "\<exists>pre post. c # cs = pre @ t @ post"
    then obtain pre post where eq: "c # cs = pre @ t @ post" by blast
    show "includes_str (c # cs) t"
    proof (cases pre)
      case Nil
      with eq have "prefix t (c # cs)" by (simp add: prefix_def)
      then show ?thesis by simp
    next
      case (Cons p ps)
      with eq have "cs = ps @ t @ post" by simp
      with Cons.IH have "includes_str cs t" by blast
      then show ?thesis by simp
    qed
  qed
qed

lemma of_char_toLowerCase_char:
  "(of_char (toLowerCase_char c) :: nat) =
     (if 65 \<le> (of_char c :: nat) \<and> (of_char c :: nat) \<le> 90 then of_char c + 32 else of_char c)"
  by (simp add: toLowerCase_char_def Let_def)

lemma toLowerCase_char_eq_iff:
  "toLowerCase_char c = l \<longleftrightarrow>
     (if 65 \<le> (of_char c :: nat) \<and> (of_char c :: nat) \<le> 90 then of_char c + 32 else of_char c)
       = (of_char l :: nat)"
  using of_char_eq_iff [of "toLowerCase_char c" l, where ?'a = nat, symmetric]
  by (simp only: of_char_toLowerCase_char)

lemma char_eq_iff_nat: "c = l \<longleftrightarrow> (of_char c :: nat) = of_char l"
  by simp

lemma lower_letters:
  "toLowerCase_char c = CHR ''a'' \<longleftrightarrow> c \<in> {CHR ''a'', CHR ''A''}"
  "toLowerCase_char c = CHR ''d'' \<longleftrightarrow> c \<in> {CHR ''d'', CHR ''D''}"
  "toLowerCase_char c = CHR ''m'' \<longleftrightarrow> c \<in> {CHR ''m'', CHR ''M''}"
  "toLowerCase_char c = CHR ''i'' \<longleftrightarrow> c \<in> {CHR ''i'', CHR ''I''}"
  "toLowerCase_char c = CHR ''n'' \<longleftrightarrow> c \<in> {CHR ''n'', CHR ''N''}"
  by (auto simp: toLowerCase_char_eq_iff char_eq_iff_nat [of c] split: if_splits)


lemma map5:
  "map f w = [a, b, c, d, e] \<longleftrightarrow>
     (\<exists>c1 c2 c3 c4 c5. w = [c1, c2, c3, c4, c5]
        \<and> f c1 = a \<and> f c2 = b \<and> f c3 = c \<and> f c4 = d \<and> f c5 = e)"
  by (auto simp: map_eq_Cons_conv)

lemma map_lower_admin:
  "map toLowerCase_char w = ''admin'' \<longleftrightarrow>
     (\<exists>c1 c2 c3 c4 c5. w = [c1, c2, c3, c4, c5]
        \<and> c1 \<in> {CHR ''a'', CHR ''A''} \<and> c2 \<in> {CHR ''d'', CHR ''D''}
        \<and> c3 \<in> {CHR ''m'', CHR ''M''} \<and> c4 \<in> {CHR ''i'', CHR ''I''}
        \<and> c5 \<in> {CHR ''n'', CHR ''N''})"
  by (simp only: map5 lower_letters)

lemma map_append_split:
  "map f xs = ys @ zs \<Longrightarrow> \<exists>us vs. xs = us @ vs \<and> map f us = ys \<and> map f vs = zs"
  by (auto simp: map_eq_append_conv)

lemma regroup:
  "(\<exists>pre w post. s = pre @ w @ post \<and>
      (\<exists>c1 c2 c3 c4 c5. w = [c1, c2, c3, c4, c5] \<and> P c1 c2 c3 c4 c5))
   \<longleftrightarrow> (\<exists>pre post c1 c2 c3 c4 c5. s = pre @ [c1, c2, c3, c4, c5] @ post \<and> P c1 c2 c3 c4 c5)"
  by (rule iffI; elim exE conjE; hypsubst; intro exI conjI; (rule refl | assumption))

lemma includes_lower_admin:
  "includes_str (toLowerCase s) ''admin'' \<longleftrightarrow> containsAdminIgnoringCase s"
proof -
  have "includes_str (toLowerCase s) ''admin'' \<longleftrightarrow>
          (\<exists>pre w post. s = pre @ w @ post \<and> map toLowerCase_char w = ''admin'')"
  proof
    assume "includes_str (toLowerCase s) ''admin''"
    then obtain p q where pq: "map toLowerCase_char s = p @ (''admin'' @ q)"
      unfolding includes_str_iff toLowerCase_def append_assoc by (elim exE)
    from map_append_split [OF pq]
    obtain pre rest where s: "s = pre @ rest"
      and rest: "map toLowerCase_char rest = ''admin'' @ q"
      by (elim exE conjE)
    from map_append_split [OF rest]
    obtain w post where "rest = w @ post" and "map toLowerCase_char w = ''admin''"
      by (elim exE conjE)
    with s have "s = pre @ w @ post \<and> map toLowerCase_char w = ''admin''"
      by simp
    then show "\<exists>pre w post. s = pre @ w @ post \<and> map toLowerCase_char w = ''admin''"
      by (intro exI)
  next
    assume "\<exists>pre w post. s = pre @ w @ post \<and> map toLowerCase_char w = ''admin''"
    then obtain pre w post where "s = pre @ w @ post" and "map toLowerCase_char w = ''admin''"
      by (elim exE conjE)
    then have "toLowerCase s = map toLowerCase_char pre @ ''admin'' @ map toLowerCase_char post"
      by (simp add: toLowerCase_def)
    then show "includes_str (toLowerCase s) ''admin''"
      unfolding includes_str_iff by (intro exI)
  qed
  also have "\<dots> \<longleftrightarrow> containsAdminIgnoringCase s"
    by (simp only: map_lower_admin containsAdminIgnoringCase_def regroup)
  finally show ?thesis .
qed

text \<open>
  Claim C8: for every email, login yields the role \<open>ADMIN\<close> if and only if the email
  contains \<open>admin\<close>, each letter in either case, and the role \<open>USER\<close> otherwise; this is
  the role of the user that \<open>handleLogin\<close> stores.
\<close>

theorem login_role_admin_iff:
  "(role (newUser e now) = ADMIN \<longleftrightarrow> containsAdminIgnoringCase e)
   \<and> (role (newUser e now) = USER \<longleftrightarrow> \<not> containsAdminIgnoringCase e)
   \<and> (\<exists>u. user (handleLogin e now st) = Some u \<and> role u = role (newUser e now))"
  by (simp add: newUser_def handleLogin_def Let_def includes_lower_admin)

theorem login_role_admin_iff_witness:
  "containsAdminIgnoringCase ''The.Admin@school.lk''
   \<and> role (newUser ''The.Admin@school.lk'' 0) = ADMIN
   \<and> \<not> containsAdminIgnoringCase ''student@example.com''
   \<and> role (newUser ''student@example.com'' 0) = USER"
proof -
  have "includes_str (toLowerCase ''The.Admin@school.lk'') ''admin''"
    by code_simp
  then have a: "role (newUser ''The.Admin@school.lk'' 0) = ADMIN"
    by (simp add: newUser_def Let_def)
  have "\<not> includes_str (toLowerCase ''student@example.com'') ''admin''"
    by code_simp
  then have b: "role (newUser ''student@example.com'' 0) = USER"
    by (simp add: newUser_def Let_def)
  from a b login_role_admin_iff [of "''The.Admin@school.lk''" 0]
    login_role_admin_iff [of "''student@example.com''" 0]
  show ?thesis by blast
qed

section \<open>The accuracy percentage\<close>

lemma roundTiesToEven_error: "\<bar>of_int (roundTiesToEven q) - q\<bar> \<le> 1 / 2"
proof -
  have "of_int \<lfloor>q\<rfloor> \<le> q" and "q < of_int \<lfloor>q\<rfloor> + 1" by linarith+
  then show ?thesis by (auto simp: roundTiesToEven_def Let_def)
qed

lemma bitlen_powi_bounds:
  assumes "0 < p"
  shows "(2::rat) powi (bitlen p - 1) \<le> of_int p" and "of_int p < (2::rat) powi (bitlen p)"
proof -
  from bitlen_bounds [OF assms]
  have lo: "2 ^ nat (bitlen p - 1) \<le> p" and hi: "p < 2 ^ nat (bitlen p)" by simp_all
  have pos: "0 < bitlen p"
  proof (rule ccontr)
    assume "\<not> 0 < bitlen p"
    then have "nat (bitlen p) = 0" by simp
    with hi have "p < 1" by simp
    with assms show False by simp
  qed
  have "(2::rat) powi (bitlen p - 1) = 2 ^ nat (bitlen p - 1)"
    using pos by (simp add: power_int_def)
  also have "\<dots> = of_int (2 ^ nat (bitlen p - 1))" by simp
  also have "\<dots> \<le> of_int p" using lo by (simp only: of_int_le_iff)
  finally show "(2::rat) powi (bitlen p - 1) \<le> of_int p" .
  have "(of_int p :: rat) < of_int (2 ^ nat (bitlen p))" using hi by (simp only: of_int_less_iff)
  also have "\<dots> = 2 ^ nat (bitlen p)" by simp
  also have "\<dots> = 2 powi (bitlen p)" using pos by (simp add: power_int_def)
  finally show "of_int p < (2::rat) powi (bitlen p)" .
qed

lemma binaryExponent_bounds:
  assumes "0 < x"
  shows "2 powi (binaryExponent x) \<le> x" and "x < 2 powi (binaryExponent x + 1)"
proof -
  obtain p q where pq: "quotient_of x = (p, q)" by (cases "quotient_of x")
  then have q: "0 < q" and x: "x = of_int p / of_int q"
    by (simp_all add: quotient_of_denom_pos quotient_of_div)
  have p: "0 < p" using assms q x by (simp add: zero_less_divide_iff)
  let ?d = "bitlen p - bitlen q"
  note P = bitlen_powi_bounds [OF p] and Q = bitlen_powi_bounds [OF q]
  have qpos: "(0::rat) < of_int q" using q by simp
  have two: "(0::rat) < 2 powi k" for k by (simp add: zero_less_power_int)
  have "x < 2 powi (bitlen p) / 2 powi (bitlen q - 1)"
  proof -
    have "x < 2 powi (bitlen p) / of_int q" unfolding x using P(2) qpos
      by (simp add: divide_strict_right_mono)
    also have "\<dots> \<le> 2 powi (bitlen p) / 2 powi (bitlen q - 1)"
      using Q(1) two [of "bitlen q - 1"] two [of "bitlen p"]
      by (intro frac_le) simp_all
    finally show ?thesis .
  qed
  also have "\<dots> = 2 powi (?d + 1)"
    by (simp add: power_int_diff [symmetric] algebra_simps)
  finally have up: "x < 2 powi (?d + 1)" .
  have "2 powi (bitlen p - 1) / 2 powi (bitlen q) \<le> x"
  proof -
    have "(2::rat) powi (bitlen p - 1) / 2 powi (bitlen q) \<le> 2 powi (bitlen p - 1) / of_int q"
      using Q(2) two [of "bitlen q"] two [of "bitlen p - 1"] qpos
      by (intro frac_le) simp_all
    also have "\<dots> \<le> x" unfolding x using P(1) qpos by (simp add: divide_right_mono)
    finally show ?thesis .
  qed
  moreover have "2 powi (bitlen p - 1) / 2 powi (bitlen q) = (2::rat) powi (?d - 1)"
    by (simp add: power_int_diff [symmetric] algebra_simps)
  ultimately have low: "2 powi (?d - 1) \<le> x" by simp
  show "2 powi (binaryExponent x) \<le> x"
    using low by (simp add: binaryExponent_def pq Let_def)
  show "x < 2 powi (binaryExponent x + 1)"
    using up by (auto simp: binaryExponent_def pq Let_def not_le)
qed


lemma fl64_error:
  assumes "0 < x"
  shows "\<bar>fl64 x - x\<bar> \<le> x / 2 ^ 53"
proof -
  let ?e = "binaryExponent x"
  let ?u = "(2::rat) powi (?e - 52)"
  have u: "0 < ?u" by (simp add: zero_less_power_int)
  have fl: "fl64 x = of_int (roundTiesToEven (x / ?u)) * ?u"
    using assms by (simp add: fl64_def Let_def)
  have "fl64 x - x = (of_int (roundTiesToEven (x / ?u)) - x / ?u) * ?u"
    using u by (simp add: fl field_simps)
  then have "\<bar>fl64 x - x\<bar> = \<bar>of_int (roundTiesToEven (x / ?u)) - x / ?u\<bar> * ?u"
    using u by (simp add: abs_mult)
  also have "\<dots> \<le> (1 / 2) * ?u"
    using roundTiesToEven_error [of "x / ?u"] u by (intro mult_right_mono) simp_all
  also have "(1 / 2) * ?u = 2 powi ?e / 2 ^ 53"
  proof -
    have "(2::rat) powi (?e - 52) = 2 powi ?e / 2 powi 52" by (simp add: power_int_diff)
    then show ?thesis by simp
  qed
  also have "\<dots> \<le> x / 2 ^ 53"
    using binaryExponent_bounds(1) [OF assms] by (simp add: divide_right_mono)
  finally show ?thesis .
qed

lemma fl64_pos:
  assumes "0 < x"
  shows "0 < fl64 x"
proof -
  have "x / 2 ^ 53 < x" using assms by (simp add: field_simps)
  with fl64_error [OF assms] show ?thesis by linarith
qed

lemma accuracy_double_error:
  fixes c a :: nat
  assumes a: "0 < a" and c: "c < 2 ^ 43"
  shows "\<bar>fl64 (fl64 (of_nat c / of_nat a) * 100) - 100 * of_nat c / of_nat a\<bar> * (2 * of_nat a) < 1"
proof (cases "c = 0")
  case True
  then show ?thesis by (simp add: fl64_def)
next
  case False
  let ?x = "of_nat c / of_nat a :: rat"
  let ?y = "fl64 ?x"
  let ?z = "fl64 (?y * 100)"
  let ?d = "1 / 2 ^ 53 :: rat"
  have x: "0 < ?x" using a False by simp
  have y: "0 < ?y" using x by (rule fl64_pos)
  have e1: "\<bar>?y - ?x\<bar> \<le> ?x * ?d" using fl64_error [OF x] by simp
  have y100: "0 < ?y * 100" using y by simp
  have e2: "\<bar>?z - ?y * 100\<bar> \<le> ?y * 100 * ?d" using fl64_error [OF y100] by simp
  have yle: "?y \<le> 2 * ?x"
  proof -
    have "?x * ?d \<le> ?x" using x by (simp add: field_simps)
    with e1 show ?thesis by linarith
  qed
  have tri: "\<bar>r - 100 * t\<bar> \<le> \<bar>r - s * 100\<bar> + 100 * \<bar>s - t\<bar>" for r s t :: rat
  proof -
    have eq: "(r - s * 100) + 100 * (s - t) = r - 100 * t" by (simp add: algebra_simps)
    have m: "\<bar>100 * (s - t)\<bar> = 100 * \<bar>s - t\<bar>" by (subst abs_mult) simp
    show ?thesis using abs_triangle_ineq [of "r - s * 100" "100 * (s - t)"] unfolding eq m .
  qed
  have "\<bar>?z - 100 * ?x\<bar> \<le> \<bar>?z - ?y * 100\<bar> + 100 * \<bar>?y - ?x\<bar>" by (rule tri)
  also have "\<dots> \<le> ?y * 100 * ?d + 100 * (?x * ?d)"
    using e1 e2 by (intro add_mono mult_left_mono) simp_all
  also have "\<dots> \<le> (2 * ?x) * 100 * ?d + 100 * (?x * ?d)"
    using yle by (intro add_right_mono mult_right_mono) simp_all
  also have "\<dots> = 300 * ?d * ?x" by simp
  finally have err: "\<bar>?z - 100 * ?x\<bar> \<le> 300 * ?d * ?x" .
  have apos: "(0::rat) < 2 * of_nat a" using a by simp
  have "\<bar>?z - 100 * ?x\<bar> * (2 * of_nat a) \<le> 300 * ?d * ?x * (2 * of_nat a)"
    using err apos by (intro mult_right_mono) simp_all
  also have "\<dots> = 600 * of_nat c / 2 ^ 53" using a by simp
  also have "\<dots> < 1"
  proof -
    have "600 * c < 600 * 2 ^ 43" using c by simp
    also have "\<dots> < (2 ^ 53 :: nat)" by simp
    finally have "(of_nat (600 * c) :: rat) < of_nat (2 ^ 53)" by (simp only: of_nat_less_iff)
    then show ?thesis by simp
  qed
  finally show ?thesis by (simp add: algebra_simps)
qed


lemma floor_on_grid:
  fixes y :: rat and k b :: int
  assumes b: "0 < b" and near: "\<bar>y * of_int b - of_int k\<bar> < 1"
  shows "\<lfloor>y\<rfloor> = k div b \<or> (k mod b = 0 \<and> \<lfloor>y\<rfloor> = k div b - 1)"
proof -
  let ?B = "of_int b :: rat"
  let ?Y = "y * ?B"
  let ?m = "k div b"
  have B: "0 < ?B" using b by simp
  have k: "k = ?m * b + k mod b" by simp
  have r: "0 \<le> k mod b" "k mod b \<le> b - 1" using b by simp_all
  have fl: "\<lfloor>y\<rfloor> = n" if "of_int (n * b) \<le> ?Y" and "?Y < of_int ((n + 1) * b)" for n
  proof (rule floor_unique)
    from that(1) have "of_int n * ?B \<le> y * ?B" by simp
    then show "of_int n \<le> y" using B by (simp only: mult_le_cancel_right_pos)
    from that(2) have "y * ?B < (of_int n + 1) * ?B" by simp
    then show "y < of_int n + 1" using B by (simp only: mult_less_cancel_right_pos)
  qed
  from near have lo: "of_int k - 1 < ?Y" and hi: "?Y < of_int k + 1" by linarith+
  have lo': "of_int (k - 1) < ?Y" and hi': "?Y < of_int (k + 1)" using lo hi by simp_all
  show ?thesis
  proof (cases "k mod b = 0")
    case False
    with r have r1: "1 \<le> k mod b" by simp
    have "?m * b \<le> k - 1" using k r1 by linarith
    then have "(of_int (?m * b) :: rat) \<le> of_int (k - 1)" by (simp only: of_int_le_iff)
    with lo' have a1: "of_int (?m * b) \<le> ?Y" by linarith
    have "k + 1 \<le> ?m * b + b" using k r(2) by linarith
    then have "k + 1 \<le> (?m + 1) * b" by (simp add: algebra_simps)
    then have "(of_int (k + 1) :: rat) \<le> of_int ((?m + 1) * b)" by (simp only: of_int_le_iff)
    with hi' have a2: "?Y < of_int ((?m + 1) * b)" by linarith
    from fl [OF a1 a2] show ?thesis by simp
  next
    case True
    with k have kb: "k = ?m * b" by simp
    show ?thesis
    proof (cases "of_int k \<le> ?Y")
      case True
      then have a1: "of_int (?m * b) \<le> ?Y" using kb by simp
      have "k + 1 \<le> ?m * b + b" using kb b by linarith
      then have "k + 1 \<le> (?m + 1) * b" by (simp add: algebra_simps)
      then have "(of_int (k + 1) :: rat) \<le> of_int ((?m + 1) * b)" by (simp only: of_int_le_iff)
      with hi' have a2: "?Y < of_int ((?m + 1) * b)" by linarith
      from fl [OF a1 a2] show ?thesis by simp
    next
      case False
      then have "?Y < of_int k" by simp
      then have a2: "?Y < of_int ((?m - 1 + 1) * b)" using kb by simp
      have "?m * b - b \<le> k - 1" using kb b by linarith
      then have "(?m - 1) * b \<le> k - 1" by (simp add: algebra_simps)
      then have "(of_int ((?m - 1) * b) :: rat) \<le> of_int (k - 1)" by (simp only: of_int_le_iff)
      with lo' have a1: "of_int ((?m - 1) * b) \<le> ?Y" by linarith
      from fl [OF a1 a2] \<open>k mod b = 0\<close> show ?thesis by simp
    qed
  qed
qed


lemma double_23_of_40: "Math_round (fl64 (fl64 (23 / 40) * 100)) = 57"
  by code_simp

lemma double_35_of_50: "Math_round (fl64 (fl64 (7 / 10) * 100)) = 70"
  by code_simp

lemma frac_int_plus_half: "frac (of_int n + 1 / 2 :: rat) = 1 / 2"
proof -
  have "\<lfloor>of_int n + 1 / 2 :: rat\<rfloor> = n" by (rule floor_unique) simp_all
  then show ?thesis by (simp add: frac_def)
qed

text \<open>
  Claim C4, as stated, fails on the code: with 40 attempted and 23 correct,
  \<open>100 \<times> 23 / 40\<close> is \<open>57.5\<close>, which rounds to 58, but the double nearest to \<open>23 / 40\<close>
  lies below it, the product with 100 rounds to a double below \<open>57.5\<close>, and the dashboard
  shows 57.
\<close>

theorem accuracy_tie_counterexample:
  "accuracy (withStats 40 23) = 57 \<and> specAccuracy 40 23 = 58"
  by (simp add: accuracy_def specAccuracy_def withStats_def double_23_of_40 round_def)

text \<open>
  Claim C4, amended: for every attempted count below \<open>2 ^ 53\<close> and correct count below
  \<open>2 ^ 43\<close>, the accuracy is 0 when nothing was attempted; otherwise it equals
  \<open>round(100 \<times> correctCount / attemptedCount)\<close>, except that where this quotient lies
  exactly halfway between two integers it may be the integer below instead; and
  50 attempted with 35 correct give 70.
\<close>

theorem accuracy_nearest:
  assumes "totalAttempted (stats u) < 2 ^ 53" and "totalCorrect (stats u) < 2 ^ 43"
  shows "(totalAttempted (stats u) = 0 \<longrightarrow> accuracy u = 0)
       \<and> (0 < totalAttempted (stats u) \<longrightarrow>
            accuracy u = specAccuracy (totalAttempted (stats u)) (totalCorrect (stats u))
            \<or> (frac (100 * of_nat (totalCorrect (stats u)) / of_nat (totalAttempted (stats u)) :: rat) = 1 / 2
               \<and> accuracy u = specAccuracy (totalAttempted (stats u)) (totalCorrect (stats u)) - 1))
       \<and> (totalAttempted (stats u) = 50 \<and> totalCorrect (stats u) = 35 \<longrightarrow> accuracy u = 70)"
proof (intro conjI impI)
  assume "totalAttempted (stats u) = 0"
  then show "accuracy u = 0" by (simp add: accuracy_def)
next
  assume "totalAttempted (stats u) = 50 \<and> totalCorrect (stats u) = 35"
  then show "accuracy u = 70" by (simp add: accuracy_def double_35_of_50)
next
  let ?a = "totalAttempted (stats u)" and ?c = "totalCorrect (stats u)"
  assume a: "0 < ?a"
  let ?X = "100 * of_nat ?c / of_nat ?a :: rat"
  let ?y2 = "fl64 (fl64 (of_nat ?c / of_nat ?a) * 100)"
  let ?k = "200 * int ?c + int ?a" and ?b = "2 * int ?a"
  have b: "0 < ?b" using a by simp
  have acc: "accuracy u = \<lfloor>?y2 + 1 / 2\<rfloor>" using a by (simp add: accuracy_def Math_round_def)
  have Xk: "?X + 1 / 2 = of_int ?k / of_int ?b" using a by (simp add: field_simps)
  have spec: "specAccuracy ?a ?c = ?k div ?b"
  proof -
    have "specAccuracy ?a ?c = \<lfloor>?X + 1 / 2\<rfloor>" using a by (simp add: specAccuracy_def round_def)
    also have "\<dots> = \<lfloor>(of_int ?k :: rat) / of_int ?b\<rfloor>" by (simp only: Xk)
    also have "\<dots> = ?k div ?b" by (rule floor_divide_of_int_eq)
    finally show ?thesis .
  qed
  have "(?y2 + 1 / 2) * of_int ?b - of_int ?k = (?y2 - ?X) * (2 * of_nat ?a)"
    using a by (simp add: field_simps)
  then have "\<bar>(?y2 + 1 / 2) * of_int ?b - of_int ?k\<bar> = \<bar>?y2 - ?X\<bar> * (2 * of_nat ?a)"
    by (simp add: abs_mult)
  also have "\<dots> < 1" using accuracy_double_error [OF a assms(2)] by simp
  finally have near: "\<bar>(?y2 + 1 / 2) * of_int ?b - of_int ?k\<bar> < 1" .
  from floor_on_grid [OF b near]
  consider "\<lfloor>?y2 + 1 / 2\<rfloor> = ?k div ?b"
    | "?k mod ?b = 0" and "\<lfloor>?y2 + 1 / 2\<rfloor> = ?k div ?b - 1" by blast
  then show "accuracy u = specAccuracy ?a ?c \<or> (frac ?X = 1 / 2 \<and> accuracy u = specAccuracy ?a ?c - 1)"
  proof cases
    case 1
    then show ?thesis by (simp only: acc spec) simp
  next
    case 2
    from 2(1) have "?k = ?k div ?b * ?b" by (simp add: mod_eq_0_iff_dvd)
    then have "(of_int ?k :: rat) = of_int (?k div ?b) * of_int ?b"
      by (metis of_int_mult)
    then have "?X + 1 / 2 = of_int (?k div ?b)" using b unfolding Xk by simp
    then have "?X = of_int (?k div ?b - 1) + 1 / 2" by simp
    then have "frac ?X = 1 / 2" by (simp only: frac_int_plus_half)
    with 2(2) show ?thesis by (simp only: acc spec) simp
  qed
qed

theorem accuracy_nearest_witness:
  "(50::nat) < 2 ^ 53 \<and> (35::nat) < 2 ^ 43
   \<and> accuracy (withStats 0 0) = 0
   \<and> accuracy (withStats 50 35) = 70 \<and> specAccuracy 50 35 = 70
   \<and> (accuracy (withStats 40 23) = specAccuracy 40 23
      \<or> frac (100 * of_nat 23 / of_nat 40 :: rat) = 1 / 2
        \<and> accuracy (withStats 40 23) = specAccuracy 40 23 - 1)"
proof -
  have s: "stats (withStats n m) = \<lparr>totalAttempted = n, totalCorrect = m, currentStreak = 0\<rparr>"
    for n m by (simp add: withStats_def)
  have z: "accuracy (withStats 0 0) = 0"
    using accuracy_nearest [of "withStats 0 0"] by (simp add: s)
  have f: "accuracy (withStats 50 35) = 70"
    using accuracy_nearest [of "withStats 50 35"] by (simp add: s)
  have sp: "specAccuracy 50 35 = 70" by code_simp
  have t: "accuracy (withStats 40 23) = specAccuracy 40 23
      \<or> frac (100 * of_nat 23 / of_nat 40 :: rat) = 1 / 2
        \<and> accuracy (withStats 40 23) = specAccuracy 40 23 - 1"
    using accuracy_nearest [of "withStats 40 23"] by (simp add: s)
  from z f sp t show ?thesis by simp
qed

end
